theory Spec2Isabelle
  imports Complex_Main "HOL-Library.Sublist"
begin

section \<open>The retrieval-augmentation pipeline of chatbot\_engine.py\<close>

text \<open>
  Strings are lists of bytes (\<^typ>\<open>string\<close>): a Python \<^verbatim>\<open>str\<close> is read as its
  UTF-8 encoding. Exceptions are values: an \<open>exn\<close> carries the text that
  \<^verbatim>\<open>str(e)\<close> gives, and a call that may raise returns \<open>exn + 'a\<close>.
\<close>

datatype exn = Exception string

fun str_exn :: "exn \<Rightarrow> string" where
  "str_exn (Exception msg) = msg"

subsection \<open>Configuration\<close>

definition TOP_K :: nat where
  "TOP_K = 30"

definition MAX_TOKENS :: int where
  "MAX_TOKENS = 4000"

subsection \<open>limit\_context\<close>

text \<open>
  \<^verbatim>\<open>
  context, token_count = [], 0
  for chunk in chunks:
      chunk_tokens = len(enc.encode(chunk))
      if token_count + chunk_tokens > max_tokens:
          break
      context.append(chunk)
      token_count += chunk_tokens
  return context, token_count
  \<close>
  The tokenizer is external (tiktoken); \<open>enc_len chunk\<close> stands for
  \<^verbatim>\<open>len(enc.encode(chunk))\<close>, a length and so a \<^typ>\<open>nat\<close>. The budget
  \<open>max_tokens\<close> is a Python integer. The loop state is \<open>(context, token_count)\<close>.
\<close>

fun limit_loop ::
  "(string \<Rightarrow> nat) \<Rightarrow> int \<Rightarrow> string list \<Rightarrow> string list \<Rightarrow> nat \<Rightarrow> string list \<times> nat" where
  "limit_loop enc_len max_tokens [] context token_count = (context, token_count)"
| "limit_loop enc_len max_tokens (chunk # chunks) context token_count =
     (let chunk_tokens = enc_len chunk in
      if int (token_count + chunk_tokens) > max_tokens then (context, token_count)
      else limit_loop enc_len max_tokens chunks (context @ [chunk]) (token_count + chunk_tokens))"

definition limit_context :: "(string \<Rightarrow> nat) \<Rightarrow> string list \<Rightarrow> int \<Rightarrow> string list \<times> nat" where
  "limit_context enc_len chunks max_tokens = limit_loop enc_len max_tokens chunks [] 0"

subsection \<open>Characters and strings\<close>

text \<open>
  The character classes and case mappings are those of ASCII text: \<open>is_digit\<close> is
  \<^verbatim>\<open>[0-9]\<close>, \<open>is_space\<close> the ASCII white space of \<^verbatim>\<open>\s\<close>, and \<open>lower\<close>, \<open>upper\<close>
  change the letters \<^verbatim>\<open>A-Z\<close>, \<^verbatim>\<open>a-z\<close> only. Bytes of a multi-byte UTF-8 sequence
  are in no class and are left unchanged.
\<close>

definition is_digit :: "char \<Rightarrow> bool" where
  "is_digit c = (48 \<le> (of_char c :: nat) \<and> (of_char c :: nat) \<le> 57)"

definition is_upper :: "char \<Rightarrow> bool" where
  "is_upper c = (65 \<le> (of_char c :: nat) \<and> (of_char c :: nat) \<le> 90)"

definition is_lower :: "char \<Rightarrow> bool" where
  "is_lower c = (97 \<le> (of_char c :: nat) \<and> (of_char c :: nat) \<le> 122)"

definition is_space :: "char \<Rightarrow> bool" where
  "is_space c = ((of_char c :: nat) \<in> {9, 10, 11, 12, 13, 28, 29, 30, 31, 32})"

definition to_lower :: "char \<Rightarrow> char" where
  "to_lower c = (if is_upper c then char_of (of_char c + (32 :: nat)) else c)"

definition to_upper :: "char \<Rightarrow> char" where
  "to_upper c = (if is_lower c then char_of (of_char c - (32 :: nat)) else c)"

definition lower :: "string \<Rightarrow> string" where
  "lower s = map to_lower s"

definition upper :: "string \<Rightarrow> string" where
  "upper s = map to_upper s"

text \<open>\<^verbatim>\<open>sub in s\<close> on strings: \<open>sub\<close> occurs in \<open>s\<close> as a contiguous part.\<close>

fun contains :: "string \<Rightarrow> string \<Rightarrow> bool" where
  "contains sub [] = (sub = [])"
| "contains sub (c # cs) = (prefix sub (c # cs) \<or> contains sub cs)"

text \<open>
  \<^verbatim>\<open>s.replace(old, new)\<close>: every occurrence of \<open>old\<close>, found from left to right
  without overlap, is replaced; the comparison is exact (case-sensitive). For an empty
  \<open>old\<close> Python puts \<open>new\<close> before every character and at the end.
\<close>

function replace :: "string \<Rightarrow> string \<Rightarrow> string \<Rightarrow> string" where
  "replace old new s =
     (if old = [] then new @ concat (map (\<lambda>c. c # new) s)
      else case s of
        [] \<Rightarrow> []
      | c # cs \<Rightarrow>
          if prefix old s then new @ replace old new (drop (length old) s)
          else c # replace old new cs)"
  by pat_completeness auto
termination
  by (relation "measure (\<lambda>(old, new, s). length s)") (auto simp: neq_Nil_conv)

text \<open>\<^verbatim>\<open>sep.join(parts)\<close>.\<close>

fun join :: "string \<Rightarrow> string list \<Rightarrow> string" where
  "join sep [] = []"
| "join sep [x] = x"
| "join sep (x # y # ys) = x @ sep @ join sep (y # ys)"

definition nl :: string where
  "nl = [CHR 0x0A]"

subsection \<open>Regular expressions\<close>

text \<open>
  The fragment of Python's \<^verbatim>\<open>re\<close> that the patterns of \<^verbatim>\<open>expand_query\<close> use:
  character classes, sequence, alternation, greedy bounded repetition \<^verbatim>\<open>r{lo,hi}\<close>
  (\<^verbatim>\<open>r?\<close> is \<^verbatim>\<open>r{0,1}\<close>), greedy \<^verbatim>\<open>r+\<close> and one capturing group. The matcher is
  the backtracking one: \<open>ms r st\<close> lists the ways \<open>r\<close> matches a prefix of the input
  in the order in which Python tries them, each as the group captured so far and the
  input left. A repetition tries one more round before it stops; \<^verbatim>\<open>r+\<close> is given one
  round per character left, which is all it can use when \<open>r\<close> is a character class.
\<close>

datatype regex =
    Eps
  | Cls "char \<Rightarrow> bool"
  | Seq regex regex
  | Alt regex regex
  | Rep nat nat regex
  | Plus regex
  | Grp regex

type_synonym mstate = "string option \<times> string"

fun rep :: "(mstate \<Rightarrow> mstate list) \<Rightarrow> nat \<Rightarrow> nat \<Rightarrow> mstate \<Rightarrow> mstate list" where
  "rep m lo 0 st = (if lo = 0 then [st] else [])"
| "rep m lo (Suc hi) st =
     concat (map (rep m (lo - 1) hi) (m st)) @ (if lo = 0 then [st] else [])"

primrec ms :: "regex \<Rightarrow> mstate \<Rightarrow> mstate list" where
  "ms Eps = (\<lambda>st. [st])"
| "ms (Cls p) = (\<lambda>st. case snd st of [] \<Rightarrow> [] | c # cs \<Rightarrow> if p c then [(fst st, cs)] else [])"
| "ms (Seq r1 r2) = (\<lambda>st. concat (map (ms r2) (ms r1 st)))"
| "ms (Alt r1 r2) = (\<lambda>st. ms r1 st @ ms r2 st)"
| "ms (Rep lo hi r) = (\<lambda>st. rep (ms r) lo hi st)"
| "ms (Plus r) = (\<lambda>st. rep (ms r) 1 (length (snd st)) st)"
| "ms (Grp r) =
     (\<lambda>st. map (\<lambda>st'. (Some (take (length (snd st) - length (snd st')) (snd st)), snd st'))
               (ms r st))"

text \<open>The match at the start of \<open>s\<close>, if any: the first way found.\<close>

definition match_at :: "regex \<Rightarrow> string \<Rightarrow> mstate option" where
  "match_at r s = (case ms r (None, s) of [] \<Rightarrow> None | st # _ \<Rightarrow> Some st)"

text \<open>
  The scan of \<^verbatim>\<open>re.findall\<close>: the leftmost match, then the leftmost match in what
  follows it. Each match is kept as (group, matched text). A match of the empty string
  (none of the patterns below has one) moves the scan on by one character.
\<close>

function findall_matches :: "regex \<Rightarrow> string \<Rightarrow> (string option \<times> string) list" where
  "findall_matches r s =
     (case match_at r s of
        None \<Rightarrow> (case s of [] \<Rightarrow> [] | _ # cs \<Rightarrow> findall_matches r cs)
      | Some (g, rest) \<Rightarrow>
          (g, take (length s - length rest) s) #
            (if length rest < length s then findall_matches r rest
             else (case s of [] \<Rightarrow> [] | _ # cs \<Rightarrow> findall_matches r cs)))"
  by pat_completeness auto
termination
  by (relation "measure (\<lambda>(r, s). length s)") auto

fun has_group :: "regex \<Rightarrow> bool" where
  "has_group (Grp r) = True"
| "has_group (Seq r1 r2) = (has_group r1 \<or> has_group r2)"
| "has_group (Alt r1 r2) = (has_group r1 \<or> has_group r2)"
| "has_group (Rep lo hi r) = has_group r"
| "has_group (Plus r) = has_group r"
| "has_group _ = False"

text \<open>
  \<^verbatim>\<open>re.findall(pattern, s)\<close>: the matched texts, or, for a pattern with a group, the
  texts of the group.
\<close>

definition re_findall :: "regex \<Rightarrow> string \<Rightarrow> string list" where
  "re_findall r s =
     map (\<lambda>(g, m). if has_group r then (case g of None \<Rightarrow> [] | Some t \<Rightarrow> t) else m)
       (findall_matches r s)"

definition seqs :: "regex list \<Rightarrow> regex" where
  "seqs rs = foldr Seq rs Eps"

definition alts :: "regex \<Rightarrow> regex list \<Rightarrow> regex" where
  "alts r rs = foldr Alt (butlast (r # rs)) (last (r # rs))"

text \<open>A literal word under \<^verbatim>\<open>re.IGNORECASE\<close>.\<close>

definition lit_i :: "string \<Rightarrow> regex" where
  "lit_i s = seqs (map (\<lambda>c. Cls (\<lambda>x. to_lower x = to_lower c)) s)"

definition digit :: regex where
  "digit = Cls is_digit"

definition upper_letter :: regex where
  "upper_letter = Cls is_upper"

definition colon :: regex where
  "colon = Cls (\<lambda>c. c = CHR '':'')"

definition dash :: regex where
  "dash = Cls (\<lambda>c. c = CHR ''-'')"

definition slash_or_dash :: regex where
  "slash_or_dash = Cls (\<lambda>c. c = CHR ''/'' \<or> c = CHR ''-'')"

definition comma :: regex where
  "comma = Cls (\<lambda>c. c = CHR '','')"

definition spaces :: regex where
  "spaces = Plus (Cls is_space)"

subsection \<open>expand\_query\<close>

text \<open>\<^verbatim>\<open>[A-Z]{4}\d{3}[A-Z]?:[A-Z]\d{3,4}[A-Z]?\<close>\<close>

definition well_pattern :: regex where
  "well_pattern =
     seqs [Rep 4 4 upper_letter, Rep 3 3 digit, Rep 0 1 upper_letter, colon,
           upper_letter, Rep 3 4 digit, Rep 0 1 upper_letter]"

text \<open>\<^verbatim>\<open>\d{4}-\d{2}-\d{2}\<close>\<close>

definition date_iso :: regex where
  "date_iso = seqs [Rep 4 4 digit, dash, Rep 2 2 digit, dash, Rep 2 2 digit]"

text \<open>\<^verbatim>\<open>\d{1,2}[/-]\d{1,2}[/-]\d{2,4}\<close>\<close>

definition date_numeric :: regex where
  "date_numeric = seqs [Rep 1 2 digit, slash_or_dash, Rep 1 2 digit, slash_or_dash, Rep 2 4 digit]"

text \<open>
  \<^verbatim>\<open>(January|February|...|December)\s+\d{1,2},?\s+\d{4}\<close>, always used with
  \<^verbatim>\<open>re.IGNORECASE\<close>. The month name is the pattern's group.
\<close>

definition date_long :: regex where
  "date_long =
     seqs [Grp (alts (lit_i ''January'')
                  (map lit_i [''February'', ''March'', ''April'', ''May'', ''June'', ''July'',
                              ''August'', ''September'', ''October'', ''November'', ''December''])),
           spaces, Rep 1 2 digit, Rep 0 1 comma, spaces, Rep 4 4 digit]"

definition date_patterns :: "regex list" where
  "date_patterns = [date_iso, date_numeric, date_long]"

definition flowstation_keywords :: "string list" where
  "flowstation_keywords = [''flowstation'', ''fs'', ''flow station'']"

text \<open>
  \<^verbatim>\<open>
  queries = [query]
  wells = re.findall(well_pattern, query.upper())
  if wells:
      for well in wells:
          queries.append(f"well {well}")
          queries.append(f"production {well}")
  for keyword in flowstation_keywords:
      if keyword in query.lower():
          queries.append(query.replace(keyword, 'flowStation'))
  for pattern in date_patterns:
      dates = re.findall(pattern, query, re.IGNORECASE)
      if dates:
          queries.append(f"date {dates[0]} production")
  return list(set(queries))
  \<close>
  The three parts appended to \<open>[query]\<close> are \<open>well_queries\<close>, \<open>flowstation_queries\<close>
  and \<open>date_queries\<close>; \<open>expand_query_list\<close> is the list \<^verbatim>\<open>queries\<close> before the last
  line.
\<close>

definition well_queries :: "string \<Rightarrow> string list" where
  "well_queries query =
     concat (map (\<lambda>well. [''well '' @ well, ''production '' @ well])
               (re_findall well_pattern (upper query)))"

definition flowstation_queries :: "string \<Rightarrow> string list" where
  "flowstation_queries query =
     concat (map (\<lambda>keyword. if contains keyword (lower query)
                              then [replace keyword ''flowStation'' query] else [])
               flowstation_keywords)"

definition date_queries :: "string \<Rightarrow> string list" where
  "date_queries query =
     concat (map (\<lambda>pattern. case re_findall pattern query of
                                [] \<Rightarrow> []
                              | date # _ \<Rightarrow> [''date '' @ date @ '' production''])
               date_patterns)"

definition expand_query_list :: "string \<Rightarrow> string list" where
  "expand_query_list query =
     [query] @ well_queries query @ flowstation_queries query @ date_queries query"


definition expand_query :: "(string list \<Rightarrow> string list) \<Rightarrow> string \<Rightarrow> string list" where
  "expand_query list_of_set query = list_of_set (expand_query_list query)"

subsection \<open>The external collaborators\<close>

text \<open>
  The embedding model, the vector index, the reranker and the LLM client are outside the
  program. Each is a function of its argument and of the state \<open>'w\<close> of the world,
  giving an exception or a result and the next state, so that a collaborator may answer
  differently from call to call. The calls made are logged beside the world, in order.
  \<open>'e\<close> is the type of embeddings, \<open>'v\<close> of metadata values and \<open>'s\<close> of scores.
\<close>

datatype 'e call =
    EncodeCall string
  | QueryCall 'e nat
  | PredictCall "(string \<times> string) list"
  | CreateCall string

type_synonym ('w, 'e) state = "'w \<times> 'e call list"

definition invoke :: "('w \<Rightarrow> 'r \<times> 'w) \<Rightarrow> 'e call \<Rightarrow> ('w, 'e) state \<Rightarrow> 'r \<times> ('w, 'e) state" where
  "invoke f c s = (case f (fst s) of (r, w') \<Rightarrow> (r, (w', snd s @ [c])))"

type_synonym 'v metadata = "string \<rightharpoonup> 'v"

text \<open>
  The answer of \<^verbatim>\<open>collection.query\<close>: \<^verbatim>\<open>results["documents"]\<close> and
  \<^verbatim>\<open>results["metadatas"]\<close> are \<^verbatim>\<open>None\<close> or hold one list per query embedding.
\<close>

record 'v query_result =
  documents :: "string list list option"
  metadatas :: "'v metadata list list option"

text \<open>
  The answer of \<^verbatim>\<open>chat.completions.create\<close>: \<open>choices\<close> holds
  \<^verbatim>\<open>message.content\<close> of each choice.
\<close>

record completion =
  choices :: "string list"

type_synonym ('w, 'e) embedding_model = "string \<Rightarrow> 'w \<Rightarrow> (exn + 'e) \<times> 'w"
type_synonym ('w, 'e, 'v) collection = "'e \<Rightarrow> nat \<Rightarrow> 'w \<Rightarrow> (exn + 'v query_result) \<times> 'w"
type_synonym ('w, 's) reranker = "(string \<times> string) list \<Rightarrow> 'w \<Rightarrow> (exn + 's list) \<times> 'w"
type_synonym 'w groq_client = "string \<Rightarrow> 'w \<Rightarrow> (exn + completion) \<times> 'w"

text \<open>
  What the Python run time fixes: the order of \<^verbatim>\<open>list(set(...))\<close>, the token count
  of the tokenizer, and \<^verbatim>\<open>str(v)\<close> and the truth value of a metadata value.
\<close>

record 'v runtime =
  list_of_set :: "string list \<Rightarrow> string list"
  enc_len :: "string \<Rightarrow> nat"
  str_of :: "'v \<Rightarrow> string"
  truthy :: "'v \<Rightarrow> bool"

subsection \<open>groq\_llm\_inference\<close>

text \<open>U+26A0 U+FE0F, the warning sign, and U+274C, the cross mark, in UTF-8.\<close>

definition warning_marker :: string where
  "warning_marker = [CHR 0xE2, CHR 0x9A, CHR 0xA0, CHR 0xEF, CHR 0xB8, CHR 0x8F]"

definition cross_mark :: string where
  "cross_mark = [CHR 0xE2, CHR 0x9D, CHR 0x8C]"

text \<open>
  \<^verbatim>\<open>
  try:
      completion = groq_client.chat.completions.create(..., {"role": "user", "content": prompt} ...)
      return completion.choices[0].message.content
  except Exception as e:
      return f"<warning sign> Error generating response: {str(e)}"
  \<close>
  The model, the system message and the sampling parameters of the call are constants;
  the call is logged with its prompt. \<^verbatim>\<open>choices[0]\<close> of an empty list raises inside
  the \<^verbatim>\<open>try\<close>.
\<close>

definition groq_llm_inference ::
  "'w groq_client \<Rightarrow> string \<Rightarrow> ('w, 'e) state \<Rightarrow> (exn + string) \<times> ('w, 'e) state" where
  "groq_llm_inference groq_client prompt s =
     (case invoke (groq_client prompt) (CreateCall prompt) s of
        (Inl e, s') \<Rightarrow> (Inr (warning_marker @ '' Error generating response: '' @ str_exn e), s')
      | (Inr completion, s') \<Rightarrow>
          (case choices completion of
             [] \<Rightarrow> (Inr (warning_marker @ '' Error generating response: ''
                          @ str_exn (Exception ''list index out of range'')), s')
           | content # _ \<Rightarrow> (Inr content, s')))"

subsection \<open>query\_chatbot\<close>

text \<open>
  The retrieval loop over \<^verbatim>\<open>expanded_queries[:3]\<close>, with \<open>n_results\<close> the value of
  \<^verbatim>\<open>TOP_K // len(expanded_queries[:3])\<close>:
  \<^verbatim>\<open>
  query_embedding = embedding_model.encode(query).tolist()
  results = collection.query(query_embeddings=[query_embedding], n_results=..., include=[...])
  if results["documents"] and results["documents"][0]:
      all_chunks.extend(results["documents"][0])
      all_metadatas.extend(results["metadatas"][0])
  \<close>
\<close>

definition extend_results ::
  "'v query_result \<Rightarrow> string list \<Rightarrow> 'v metadata list \<Rightarrow> exn + (string list \<times> 'v metadata list)" where
  "extend_results results all_chunks all_metadatas =
     (case documents results of
        None \<Rightarrow> Inr (all_chunks, all_metadatas)
      | Some [] \<Rightarrow> Inr (all_chunks, all_metadatas)
      | Some (docs # _) \<Rightarrow>
          if docs = [] then Inr (all_chunks, all_metadatas)
          else (case metadatas results of
                  None \<Rightarrow> Inl (Exception (CHR 0x27 # ''NoneType'' @ CHR 0x27 # '' object is not subscriptable''))
                | Some [] \<Rightarrow> Inl (Exception ''list index out of range'')
                | Some (metas # _) \<Rightarrow> Inr (all_chunks @ docs, all_metadatas @ metas)))"

fun retrieve_loop ::
  "('w, 'e, 'v) collection \<Rightarrow> ('w, 'e) embedding_model \<Rightarrow> nat \<Rightarrow> string list \<Rightarrow>
   string list \<Rightarrow> 'v metadata list \<Rightarrow> ('w, 'e) state \<Rightarrow>
   (exn + (string list \<times> 'v metadata list)) \<times> ('w, 'e) state" where
  "retrieve_loop collection embedding_model n_results [] all_chunks all_metadatas s =
     (Inr (all_chunks, all_metadatas), s)"
| "retrieve_loop collection embedding_model n_results (query # queries) all_chunks all_metadatas s =
     (case invoke (embedding_model query) (EncodeCall query) s of
        (Inl e, s1) \<Rightarrow> (Inl e, s1)
      | (Inr query_embedding, s1) \<Rightarrow>
          (case invoke (collection query_embedding n_results) (QueryCall query_embedding n_results) s1 of
             (Inl e, s2) \<Rightarrow> (Inl e, s2)
           | (Inr results, s2) \<Rightarrow>
               (case extend_results results all_chunks all_metadatas of
                  Inl e \<Rightarrow> (Inl e, s2)
                | Inr (all_chunks', all_metadatas') \<Rightarrow>
                    retrieve_loop collection embedding_model n_results queries
                      all_chunks' all_metadatas' s2)))"

text \<open>
  \<^verbatim>\<open>
  seen = set(); unique_chunks = []; unique_metadatas = []
  for chunk, meta in zip(all_chunks, all_metadatas):
      if chunk not in seen:
          seen.add(chunk)
          unique_chunks.append(chunk)
          unique_metadatas.append(meta)
  \<close>
\<close>

fun dedup_loop ::
  "(string \<times> 'm) list \<Rightarrow> string set \<Rightarrow> string list \<Rightarrow> 'm list \<Rightarrow> string list \<times> 'm list" where
  "dedup_loop [] seen unique_chunks unique_metadatas = (unique_chunks, unique_metadatas)"
| "dedup_loop ((chunk, meta) # rest) seen unique_chunks unique_metadatas =
     (if chunk \<notin> seen
      then dedup_loop rest (insert chunk seen) (unique_chunks @ [chunk]) (unique_metadatas @ [meta])
      else dedup_loop rest seen unique_chunks unique_metadatas)"

definition remove_duplicates :: "string list \<Rightarrow> 'm list \<Rightarrow> string list \<times> 'm list" where
  "remove_duplicates all_chunks all_metadatas = dedup_loop (zip all_chunks all_metadatas) {} [] []"

text \<open>
  \<^verbatim>\<open>sorted(xs, key=key, reverse=True)\<close>. CPython reverses the list, sorts it stably in
  ascending order of the keys and reverses the result; \<open>sort_key\<close> is a stable
  ascending sort. Scores are values of a linear order (floating-point numbers without
  NaN).
\<close>

definition py_sorted_reverse :: "('a \<Rightarrow> 's::linorder) \<Rightarrow> 'a list \<Rightarrow> 'a list" where
  "py_sorted_reverse key xs = rev (sort_key key (rev xs))"

text \<open>
  \<^verbatim>\<open>
  reranked_with_scores = sorted(zip(unique_chunks, unique_metadatas, scores),
                                key=lambda x: x[2], reverse=True)
  \<close>
\<close>

definition rerank :: "string list \<Rightarrow> 'm list \<Rightarrow> ('s::linorder) list \<Rightarrow> (string \<times> 'm \<times> 's) list" where
  "rerank unique_chunks unique_metadatas scores =
     py_sorted_reverse (\<lambda>x. snd (snd x)) (zip unique_chunks (zip unique_metadatas scores))"

text \<open>
  \<^verbatim>\<open>
  meta_summary = f"[Collection: {meta.get('collection', 'Unknown')}]"
  if 'asset' in meta:
      meta_summary += f" [Asset: {meta['asset']}]"
  if 'flowStation' in meta or 'flowstation' in meta:
      fs = meta.get('flowStation') or meta.get('flowstation')
      meta_summary += f" [Flowstation: {fs}]"
  if 'date' in meta or 'productionDate' in meta:
      date = meta.get('date') or meta.get('productionDate')
      meta_summary += f" [Date: {date}]"
  \<close>
  \<^verbatim>\<open>meta.get(k)\<close> is \<^verbatim>\<open>None\<close> for a missing key, \<^verbatim>\<open>a or b\<close> is \<open>b\<close> unless
  \<open>a\<close> is true, and an f-string prints \<^verbatim>\<open>None\<close> as the word.
\<close>

definition py_or :: "('v \<Rightarrow> bool) \<Rightarrow> 'v option \<Rightarrow> 'v option \<Rightarrow> 'v option" where
  "py_or truthy_of a b = (case a of None \<Rightarrow> b | Some v \<Rightarrow> if truthy_of v then a else b)"

definition format_opt :: "('v \<Rightarrow> string) \<Rightarrow> 'v option \<Rightarrow> string" where
  "format_opt to_str a = (case a of None \<Rightarrow> ''None'' | Some v \<Rightarrow> to_str v)"

definition collection_field :: "'v runtime \<Rightarrow> 'v metadata \<Rightarrow> string" where
  "collection_field rt meta =
     ''[Collection: '' @ (case meta ''collection'' of None \<Rightarrow> ''Unknown'' | Some v \<Rightarrow> str_of rt v) @ '']''"

definition asset_field :: "'v runtime \<Rightarrow> 'v metadata \<Rightarrow> string" where
  "asset_field rt meta =
     (case meta ''asset'' of None \<Rightarrow> [] | Some v \<Rightarrow> '' [Asset: '' @ str_of rt v @ '']'')"

definition flowstation_field :: "'v runtime \<Rightarrow> 'v metadata \<Rightarrow> string" where
  "flowstation_field rt meta =
     (if meta ''flowStation'' \<noteq> None \<or> meta ''flowstation'' \<noteq> None
      then '' [Flowstation: ''
           @ format_opt (str_of rt) (py_or (truthy rt) (meta ''flowStation'') (meta ''flowstation''))
           @ '']''
      else [])"

definition date_field :: "'v runtime \<Rightarrow> 'v metadata \<Rightarrow> string" where
  "date_field rt meta =
     (if meta ''date'' \<noteq> None \<or> meta ''productionDate'' \<noteq> None
      then '' [Date: ''
           @ format_opt (str_of rt) (py_or (truthy rt) (meta ''date'') (meta ''productionDate''))
           @ '']''
      else [])"

definition meta_summary :: "'v runtime \<Rightarrow> 'v metadata \<Rightarrow> string" where
  "meta_summary rt meta =
     collection_field rt meta @ asset_field rt meta @ flowstation_field rt meta @ date_field rt meta"

text \<open>
  \<^verbatim>\<open>
  for chunk, meta in zip(limited_chunks, reranked_metadatas[:len(limited_chunks)]):
      ...
      context_parts.append(f"{meta_summary}\n{chunk}")
  context_text = "\n\n---\n\n".join(context_parts)
  \<close>
\<close>

definition context_parts :: "'v runtime \<Rightarrow> string list \<Rightarrow> 'v metadata list \<Rightarrow> string list" where
  "context_parts rt limited_chunks reranked_metadatas =
     map (\<lambda>(chunk, meta). meta_summary rt meta @ nl @ chunk)
       (zip limited_chunks (take (length limited_chunks) reranked_metadatas))"

definition context_separator :: string where
  "context_separator = nl @ nl @ ''---'' @ nl @ nl"

definition prompt_header :: string where
  "prompt_header =
     ''You are analyzing petroleum engineering production data from a database.'' @ nl @ nl
     @ ''**IMPORTANT INSTRUCTIONS:**'' @ nl
     @ ''1. Answer based ONLY on the context provided below'' @ nl
     @ ''2. If you find specific data, cite it with exact values and units'' @ nl
     @ ''3. If data is missing or incomplete, clearly state what's missing'' @ nl
     @ ''4. For production queries, include: well name, flowstation, values with units'' @ nl
     @ ''5. For date-based queries, verify the date matches what was asked'' @ nl
     @ ''6. If you see multiple records, analyze all of them'' @ nl
     @ ''7. Be precise with numbers - don't round unnecessarily'' @ nl
     @ ''8. Use markdown tables for multiple data points'' @ nl @ nl
     @ ''**CONTEXT DATA:**'' @ nl"

definition compose_prompt :: "string \<Rightarrow> string \<Rightarrow> string" where
  "compose_prompt context_text user_question =
     prompt_header @ context_text @ nl @ nl
     @ ''**USER QUESTION:**'' @ nl @ user_question @ nl @ nl
     @ ''**YOUR ANSWER:**''"

definition no_relevant_information :: string where
  "no_relevant_information =
     cross_mark @ '' No relevant information found in the database for your query.''"

text \<open>
  The function itself, in two parts: \<open>retrieve\<close> is the expansion and the retrieval
  loop (up to \<^verbatim>\<open>if not all_chunks\<close>), \<open>query_chatbot\<close> the whole. With
  \<^verbatim>\<open>debug\<close> set the function prints (not modelled) and reads
  \<^verbatim>\<open>reranked_with_scores[0]\<close>, which raises on an empty list.
\<close>

definition retrieve ::
  "'v runtime \<Rightarrow> ('w, 'e, 'v) collection \<Rightarrow> ('w, 'e) embedding_model \<Rightarrow> string \<Rightarrow> ('w, 'e) state \<Rightarrow>
   (exn + (string list \<times> 'v metadata list)) \<times> ('w, 'e) state" where
  "retrieve rt collection embedding_model user_question s =
     (let expanded_queries = expand_query (list_of_set rt) user_question;
          consumed = take 3 expanded_queries
      in retrieve_loop collection embedding_model (TOP_K div length consumed) consumed [] [] s)"

definition query_chatbot ::
  "'v runtime \<Rightarrow> ('w, 'e, 'v) collection \<Rightarrow> ('w, 'e) embedding_model \<Rightarrow> ('w, 's::linorder) reranker \<Rightarrow>
   'w groq_client \<Rightarrow> string \<Rightarrow> bool \<Rightarrow> ('w, 'e) state \<Rightarrow> (exn + string) \<times> ('w, 'e) state" where
  "query_chatbot rt collection embedding_model reranker groq_client user_question debug s =
     (case retrieve rt collection embedding_model user_question s of
        (Inl e, s1) \<Rightarrow> (Inl e, s1)
      | (Inr (all_chunks, all_metadatas), s1) \<Rightarrow>
          if all_chunks = [] then (Inr no_relevant_information, s1)
          else
            (let (unique_chunks, unique_metadatas) = remove_duplicates all_chunks all_metadatas;
                 pairs = map (\<lambda>doc. (user_question, doc)) unique_chunks
             in case invoke (reranker pairs) (PredictCall pairs) s1 of
                  (Inl e, s2) \<Rightarrow> (Inl e, s2)
                | (Inr scores, s2) \<Rightarrow>
                    (let reranked_with_scores = rerank unique_chunks unique_metadatas scores;
                         reranked_chunks = map fst reranked_with_scores;
                         reranked_metadatas = map (\<lambda>x. fst (snd x)) reranked_with_scores
                     in if debug \<and> reranked_with_scores = []
                        then (Inl (Exception ''list index out of range''), s2)
                        else
                          (let (limited_chunks, token_count) =
                                 limit_context (enc_len rt) reranked_chunks MAX_TOKENS;
                               context_text =
                                 join context_separator
                                   (context_parts rt limited_chunks reranked_metadatas);
                               prompt = compose_prompt context_text user_question
                           in groq_llm_inference groq_client prompt s2))))"

subsection \<open>process\_query (main\_app.py)\<close>

text \<open>
  \<^verbatim>\<open>
  try:
      response = query_chatbot(collection=components["collection"], ..., debug=False)
      return response
  except Exception as e:
      return f"<warning sign> Error processing query: {str(e)}"
  \<close>
\<close>

record ('w, 'e, 'v, 's) components =
  collection :: "('w, 'e, 'v) collection"
  embedding_model :: "('w, 'e) embedding_model"
  reranker :: "('w, 's) reranker"
  groq_client :: "'w groq_client"

definition process_query ::
  "'v runtime \<Rightarrow> string \<Rightarrow> ('w, 'e, 'v, 's::linorder) components \<Rightarrow> ('w, 'e) state \<Rightarrow>
   (exn + string) \<times> ('w, 'e) state" where
  "process_query rt user_input components s =
     (case query_chatbot rt (collection components) (embedding_model components)
             (reranker components) (groq_client components) user_input False s of
        (Inl e, s') \<Rightarrow> (Inr (warning_marker @ '' Error processing query: '' @ str_exn e), s')
      | (Inr response, s') \<Rightarrow> (Inr response, s'))"

subsection \<open>Instances for the examples\<close>

text \<open>
  A run time whose metadata values are strings (\<^verbatim>\<open>str\<close> of a string is the string,
  and a string is true when it is not empty), which lists a set in the order of first
  occurrence and counts one token per character.
\<close>

definition example_runtime :: "string runtime" where
  "example_runtime =
     \<lparr>list_of_set = (\<lambda>xs. rev (remdups (rev xs))), enc_len = length, str_of = (\<lambda>v. v),
      truthy = (\<lambda>v. v \<noteq> [])\<rparr>"

text \<open>Which calls of the log went to the reranker or to the LLM.\<close>

fun is_rerank_or_llm :: "'e call \<Rightarrow> bool" where
  "is_rerank_or_llm (PredictCall pairs) = True"
| "is_rerank_or_llm (CreateCall prompt) = True"
| "is_rerank_or_llm _ = False"

text \<open>
  Collaborators for the examples: an embedding model that returns the query text as its
  embedding, and an index that finds nothing.
\<close>

definition text_embedding :: "(unit, string) embedding_model" where
  "text_embedding query w = (Inr query, w)"

definition empty_index :: "(unit, string, string) collection" where
  "empty_index query_embedding n_results w = (Inr \<lparr>documents = Some [[]], metadatas = Some [[]]\<rparr>, w)"

text \<open>
  An embedding model that raises, a reranker that gives every pair the score \<open>1\<close>, an
  LLM that answers with one fixed choice, and an index whose only chunk has 4001
  characters.
\<close>

definition failing_embedding :: "(unit, string) embedding_model" where
  "failing_embedding query w = (Inl (Exception ''model not loaded''), w)"

definition silent_reranker :: "(unit, real) reranker" where
  "silent_reranker pairs w = (Inr (map (\<lambda>_. 1) pairs), w)"

definition fixed_llm :: "unit groq_client" where
  "fixed_llm prompt w = (Inr \<lparr>choices = [''42 barrels'']\<rparr>, w)"

definition long_chunk :: string where
  "long_chunk = replicate 4001 CHR ''x''"


subsection \<open>Auxiliary functions of the proofs\<close>

text \<open>The pairs that the deduplication loop keeps, given the texts seen so far.\<close>

fun first_pairs :: "(string \<times> 'm) list \<Rightarrow> string set \<Rightarrow> (string \<times> 'm) list" where
  "first_pairs [] seen = []"
| "first_pairs ((chunk, meta) # rest) seen =
     (if chunk \<notin> seen then (chunk, meta) # first_pairs rest (insert chunk seen)
      else first_pairs rest seen)"

section \<open>Properties\<close>

subsection \<open>limit\_context\<close>

lemma limit_loop_spec:
  assumes "limit_loop tok m chunks ctx n = (ctx', n')"
  shows "\<exists>sel. ctx' = ctx @ sel \<and> prefix sel chunks \<and> n' = n + sum_list (map tok sel)
           \<and> (sel \<noteq> chunks \<longrightarrow> int (n' + tok (chunks ! length sel)) > m)"
  using assms
proof (induction chunks arbitrary: ctx n)
  case Nil
  then show ?case by simp
next
  case (Cons c cs)
  show ?case
  proof (cases "int (n + tok c) > m")
    case True
    with Cons.prems have "ctx' = ctx" "n' = n" by (simp_all add: Let_def)
    with True show ?thesis by (intro exI [of _ "[]"]) simp
  next
    case False
    with Cons.prems have "limit_loop tok m cs (ctx @ [c]) (n + tok c) = (ctx', n')"
      by (simp add: Let_def)
    from Cons.IH [OF this] obtain sel where
      sel: "ctx' = (ctx @ [c]) @ sel" "prefix sel cs" "n' = n + tok c + sum_list (map tok sel)"
        "sel \<noteq> cs \<longrightarrow> int (n' + tok (cs ! length sel)) > m"
      by blast
    then show ?thesis by (intro exI [of _ "c # sel"]) simp
  qed
qed

lemma limit_loop_bound:
  "int n \<le> m \<Longrightarrow> int (snd (limit_loop tok m chunks ctx n)) \<le> m"
  by (induction chunks arbitrary: ctx n) (simp_all add: Let_def)

lemma limit_loop_negative_budget:
  "max_tokens < 0 \<Longrightarrow> limit_context tok chunks max_tokens = ([], 0)"
  by (cases chunks) (simp_all add: limit_context_def Let_def)

text \<open>
  C1. For every tokenizer, every list of ranked chunks and every budget, \<open>limit_context\<close>
  returns a prefix of its input together with the sum of the token counts of that
  prefix, and for a token budget (a number of tokens, \<open>0 \<le> max_tokens\<close>) this total does
  not exceed \<open>max_tokens\<close>. Selection stops at the first chunk that does not fit: when
  the selection is not the whole input, adding the chunk right after it would pass the
  budget, whatever comes later. With token costs \<open>[1000, 1000, 1000, 1000, 1000]\<close> and
  a budget of \<open>3500\<close> the first three chunks are returned with total \<open>3000\<close>.
  (A negative \<open>max_tokens\<close> gives \<open>([], 0)\<close>, see \<open>limit_loop_negative_budget\<close>.)
\<close>

theorem limit_context_budget:
  "prefix (fst (limit_context tok chunks max_tokens)) chunks
   \<and> snd (limit_context tok chunks max_tokens)
       = sum_list (map tok (fst (limit_context tok chunks max_tokens)))
   \<and> (0 \<le> max_tokens \<longrightarrow> int (snd (limit_context tok chunks max_tokens)) \<le> max_tokens)
   \<and> (fst (limit_context tok chunks max_tokens) \<noteq> chunks \<longrightarrow>
        int (snd (limit_context tok chunks max_tokens)
             + tok (chunks ! length (fst (limit_context tok chunks max_tokens)))) > max_tokens)
   \<and> (map tok chunks = [1000, 1000, 1000, 1000, 1000] \<and> max_tokens = 3500 \<longrightarrow>
        limit_context tok chunks max_tokens = (take 3 chunks, 3000))"
proof -
  obtain ctx n where r: "limit_context tok chunks max_tokens = (ctx, n)"
    by (cases "limit_context tok chunks max_tokens")
  then have "limit_loop tok max_tokens chunks [] 0 = (ctx, n)"
    by (simp add: limit_context_def)
  from limit_loop_spec [OF this] have
    sel: "prefix ctx chunks" "n = sum_list (map tok ctx)"
      "ctx \<noteq> chunks \<longrightarrow> int (n + tok (chunks ! length ctx)) > max_tokens"
    by auto
  have bound: "int n \<le> max_tokens" if "0 \<le> max_tokens"
    using limit_loop_bound [of 0 max_tokens tok chunks "[]"] that r
    by (simp add: limit_context_def)
  have example: "limit_context tok chunks max_tokens = (take 3 chunks, 3000)"
    if "map tok chunks = [1000, 1000, 1000, 1000, 1000]" "max_tokens = 3500"
  proof -
    from that(1) obtain a b c d e where "chunks = [a, b, c, d, e]"
      "tok a = 1000" "tok b = 1000" "tok c = 1000" "tok d = 1000" "tok e = 1000"
      by (auto simp: map_eq_Cons_conv)
    with that(2) show ?thesis
      by (simp add: limit_context_def Let_def)
  qed
  from sel bound example show ?thesis
    unfolding r by auto
qed

theorem limit_context_budget_witness:
  "(0::int) \<le> 3500
   \<and> map (\<lambda>_. 1000 :: nat) [''a'', ''b'', ''c'', ''d'', ''e''] = [1000, 1000, 1000, 1000, 1000]
   \<and> limit_context (\<lambda>_. 1000) [''a'', ''b'', ''c'', ''d'', ''e''] 3500 = ([''a'', ''b'', ''c''], 3000)
   \<and> fst (limit_context (\<lambda>_. 1000) [''a'', ''b'', ''c'', ''d'', ''e''] 3500) \<noteq> [''a'', ''b'', ''c'', ''d'', ''e'']
   \<and> int (3000 + 1000) > 3500"
  using limit_context_budget [of "\<lambda>_. 1000" "[''a'', ''b'', ''c'', ''d'', ''e'']" 3500]
  by simp

subsection \<open>Deduplication\<close>

lemma dedup_loop_first_pairs:
  "dedup_loop ps seen uc um = (uc @ map fst (first_pairs ps seen), um @ map snd (first_pairs ps seen))"
  by (induction ps seen uc um rule: dedup_loop.induct) simp_all

lemma subseq_first_pairs: "subseq (first_pairs ps seen) ps"
  by (induction ps seen rule: first_pairs.induct) auto

lemma first_pairs_insert:
  "first_pairs ps (insert c seen) = first_pairs (filter (\<lambda>p. fst p \<noteq> c) ps) seen"
proof (induction ps arbitrary: seen)
  case Nil
  show ?case by simp
next
  case (Cons p ps)
  obtain a m where p: "p = (a, m)" by (cases p)
  have swap: "first_pairs ps (insert a (insert c seen))
      = first_pairs (filter (\<lambda>p. fst p \<noteq> c) ps) (insert a seen)"
    using Cons.IH [of "insert a seen"] by (simp add: insert_commute)
  show ?case using Cons.IH [of seen] swap p by auto
qed

lemma rev_remdups_rev_Cons:
  "rev (remdups (rev (c # cs))) = c # rev (remdups (rev (filter (\<lambda>x. x \<noteq> c) cs)))"
proof -
  have "remdups (xs @ [c]) = filter (\<lambda>x. x \<noteq> c) (remdups xs) @ [c]" for xs
    by (induction xs) auto
  then show ?thesis by (simp add: rev_filter remdups_filter)
qed

lemma fst_first_pairs:
  "map fst (first_pairs ps {}) = rev (remdups (rev (map fst ps)))"
proof (induction "length ps" arbitrary: ps rule: less_induct)
  case less
  show ?case
  proof (cases ps)
    case Nil
    then show ?thesis by simp
  next
    case (Cons p rest)
    obtain c m where p: "p = (c, m)" by (cases p)
    let ?rest' = "filter (\<lambda>p. fst p \<noteq> c) rest"
    have "length ?rest' < length ps" using Cons by (simp add: less_Suc_eq_le)
    from less [OF this] have "map fst (first_pairs ?rest' {}) = rev (remdups (rev (map fst ?rest')))" .
    moreover have "map fst ?rest' = filter (\<lambda>x. x \<noteq> c) (map fst rest)"
      by (simp add: filter_map comp_def)
    ultimately show ?thesis
      using Cons p by (simp add: first_pairs_insert rev_remdups_rev_Cons del: rev.simps)
  qed
qed

lemma first_pairs_map_of:
  "(c, m) \<in> set (first_pairs ps seen) \<Longrightarrow> map_of ps c = Some m \<and> c \<notin> seen"
  by (induction ps seen rule: first_pairs.induct) (auto split: if_splits)

lemma map_of_zip_first_index:
  "length xs = length ys \<Longrightarrow> map_of (zip xs ys) c = Some m \<Longrightarrow>
   \<exists>j<length xs. xs ! j = c \<and> ys ! j = m \<and> (\<forall>k<j. xs ! k \<noteq> c)"
proof (induction xs ys rule: list_induct2)
  case Nil
  then show ?case by simp
next
  case (Cons x xs y ys)
  show ?case
  proof (cases "x = c")
    case True
    with Cons.prems show ?thesis by (intro exI [of _ 0]) simp
  next
    case False
    with Cons obtain j where j: "j < length xs" "xs ! j = c" "ys ! j = m" "\<forall>k<j. xs ! k \<noteq> c"
      by auto
    have "\<forall>k<Suc j. (x # xs) ! k \<noteq> c"
      using False j(4) by (auto simp: nth_Cons split: nat.splits)
    with j show ?thesis by (intro exI [of _ "Suc j"]) simp
  qed
qed

text \<open>
  C9. For parallel lists of chunks and metadatas, deduplication keeps the pairs in their
  order (the result is a subsequence of the zipped input), keeps each chunk text once, at
  its first occurrence (\<open>rev (remdups (rev chunks))\<close> is \<open>chunks\<close> with every later
  repetition removed), is no longer than the input, and pairs each surviving chunk with
  the metadata of the first position that holds its text; the metadata of a later
  occurrence is dropped whatever it is.
\<close>

theorem remove_duplicates_first_occurrence:
  assumes "length chunks = length metas"
  shows "length (snd (remove_duplicates chunks metas)) = length (fst (remove_duplicates chunks metas))
    \<and> subseq (zip (fst (remove_duplicates chunks metas)) (snd (remove_duplicates chunks metas)))
         (zip chunks metas)
    \<and> fst (remove_duplicates chunks metas) = rev (remdups (rev chunks))
    \<and> length (fst (remove_duplicates chunks metas)) \<le> length chunks
    \<and> (\<forall>i<length (fst (remove_duplicates chunks metas)).
          \<exists>j<length chunks. chunks ! j = fst (remove_duplicates chunks metas) ! i
            \<and> metas ! j = snd (remove_duplicates chunks metas) ! i
            \<and> (\<forall>k<j. chunks ! k \<noteq> chunks ! j))"
proof -
  let ?ps = "zip chunks metas"
  let ?fp = "first_pairs ?ps {}"
  have r: "remove_duplicates chunks metas = (map fst ?fp, map snd ?fp)"
    by (simp add: remove_duplicates_def dedup_loop_first_pairs)
  have z: "zip (map fst ?fp) (map snd ?fp) = ?fp"
    by (simp add: zip_map_fst_snd)
  have order: "map fst ?fp = rev (remdups (rev chunks))"
    using assms by (simp add: fst_first_pairs)
  have len: "length (map fst ?fp) \<le> length chunks"
    unfolding order by (metis length_remdups_leq length_rev)
  have first: "\<exists>j<length chunks. chunks ! j = map fst ?fp ! i \<and> metas ! j = map snd ?fp ! i
      \<and> (\<forall>k<j. chunks ! k \<noteq> chunks ! j)" if "i < length (map fst ?fp)" for i
  proof -
    from that have "?fp ! i \<in> set ?fp" by simp
    then have "map_of ?ps (fst (?fp ! i)) = Some (snd (?fp ! i))"
      using first_pairs_map_of [of "fst (?fp ! i)" "snd (?fp ! i)" ?ps "{}"] by simp
    from map_of_zip_first_index [OF assms this] that show ?thesis by auto
  qed
  have lens: "length (map snd ?fp) = length (map fst ?fp)"
    by simp
  have sub: "subseq (zip (map fst ?fp) (map snd ?fp)) ?ps"
    unfolding z by (rule subseq_first_pairs)
  from lens sub order len first show ?thesis
    unfolding r fst_conv snd_conv by blast
qed

theorem remove_duplicates_first_occurrence_witness:
  "length [''a'', ''b'', ''a''] = length [1, 2, 3 :: nat]
   \<and> remove_duplicates [''a'', ''b'', ''a''] [1, 2, 3 :: nat] = ([''a'', ''b''], [1, 2])
   \<and> rev (remdups (rev [''a'', ''b'', ''a''])) = [''a'', ''b'']"
  using remove_duplicates_first_occurrence [of "[''a'', ''b'', ''a'']" "[1, 2, 3 :: nat]"]
  by (simp add: remove_duplicates_def)

subsection \<open>Reranking\<close>

lemma py_sorted_reverse_sorted:
  "sorted_wrt (\<lambda>a b. a \<ge> b) (map key (py_sorted_reverse key xs))"
proof -
  have "sorted (map key (sort_key key (rev xs)))"
    by (rule sorted_sort_key)
  then have "sorted_wrt (\<lambda>a b. a \<ge> b) (rev (map key (sort_key key (rev xs))))"
    by (simp add: sorted_wrt_rev)
  then show ?thesis
    by (simp add: py_sorted_reverse_def rev_map)
qed

lemma py_sorted_reverse_stable:
  "filter (\<lambda>x. key x = k) (py_sorted_reverse key xs) = filter (\<lambda>x. key x = k) xs"
proof -
  have "filter (\<lambda>x. key x = k) (sort_key key (rev xs)) = filter (\<lambda>x. key x = k) (rev xs)"
    by (rule sort_key_stable)
  then have "rev (filter (\<lambda>x. key x = k) (sort_key key (rev xs))) = filter (\<lambda>x. key x = k) xs"
    by (simp add: rev_filter)
  then show ?thesis
    by (simp add: py_sorted_reverse_def rev_filter)
qed

lemma py_sorted_reverse_set: "set (py_sorted_reverse key xs) = set xs"
  by (simp add: py_sorted_reverse_def)

lemma py_sorted_reverse_length: "length (py_sorted_reverse key xs) = length xs"
  by (simp add: py_sorted_reverse_def)

text \<open>
  C8. For all lists of chunks, metadatas and scores, the scores of the reranked triples
  are non-increasing; the triples of any one score are in the order in which they
  entered (the sort is stable); the reranked list holds the same triples as the zipped
  input and is as long. With scores \<open>[0.2, 0.9, 0.5]\<close> for chunks \<open>[A, B, C]\<close> the
  order is \<open>[B, C, A]\<close>.
\<close>

theorem rerank_sorted_stable:
  "sorted_wrt (\<lambda>a b. a \<ge> b) (map (\<lambda>x. snd (snd x)) (rerank chunks metas scores))
   \<and> (\<forall>k. filter (\<lambda>x. snd (snd x) = k) (rerank chunks metas scores)
            = filter (\<lambda>x. snd (snd x) = k) (zip chunks (zip metas scores)))
   \<and> set (rerank chunks metas scores) = set (zip chunks (zip metas scores))
   \<and> length (rerank chunks metas scores) = length (zip chunks (zip metas scores))
   \<and> map fst (rerank [A, B, C] [ma, mb, mc] [0.2, 0.9, 0.5 :: real]) = [B, C, A]"
proof -
  have ex: "map fst (rerank [A, B, C] [ma, mb, mc] [0.2, 0.9, 0.5 :: real]) = [B, C, A]"
    by (simp add: rerank_def py_sorted_reverse_def)
  show ?thesis
    unfolding rerank_def
    by (intro conjI allI py_sorted_reverse_sorted py_sorted_reverse_stable
          py_sorted_reverse_set py_sorted_reverse_length ex [unfolded rerank_def])
qed

theorem rerank_sorted_stable_witness:
  "rerank [''A'', ''B'', ''C'', ''D''] [1, 2, 3, 4 :: nat] [0.5, 0.9, 0.5, 0.9 :: real]
     = [(''B'', 2, 0.9), (''D'', 4, 0.9), (''A'', 1, 0.5), (''C'', 3, 0.5)]
   \<and> sorted_wrt (\<lambda>a b. a \<ge> b) [0.9, 0.9, 0.5, 0.5 :: real]"
  using rerank_sorted_stable [of "[''A'', ''B'', ''C'', ''D'']" "[1, 2, 3, 4 :: nat]" "[0.5, 0.9, 0.5, 0.9 :: real]"]
  by (simp add: rerank_def py_sorted_reverse_def)

subsection \<open>The metadata summary\<close>

text \<open>
  A metadata mapping without the key \<open>collection\<close> still gets a collection field, with
  the value \<open>Unknown\<close>.
\<close>

theorem meta_summary_collection_counterexample:
  "map_of [(''asset'', ''OML 11'')] ''collection'' = None
   \<and> meta_summary example_runtime (map_of [(''asset'', ''OML 11'')])
       = ''[Collection: Unknown] [Asset: OML 11]''"
  by (simp add: meta_summary_def collection_field_def asset_field_def flowstation_field_def
        date_field_def example_runtime_def)

text \<open>
  C7 (amended). For every metadata mapping, the summary is the collection field followed
  by the asset, flowstation and date fields. The collection field is always there: it
  shows the value of the key \<open>collection\<close>, or \<open>Unknown\<close> when the key is absent. The
  asset field is there exactly when the key \<open>asset\<close> is present; the flowstation field
  exactly when \<open>flowStation\<close> or \<open>flowstation\<close> is present, and the date field exactly
  when \<open>date\<close> or \<open>productionDate\<close> is present, each showing the first alias unless
  its value is missing or false. A field that is not there contributes the empty string.
\<close>

theorem meta_summary_fields:
  "meta_summary rt meta
     = collection_field rt meta @ asset_field rt meta @ flowstation_field rt meta @ date_field rt meta
   \<and> collection_field rt meta
       = ''[Collection: '' @ (case meta ''collection'' of None \<Rightarrow> ''Unknown'' | Some v \<Rightarrow> str_of rt v) @ '']''
   \<and> (case meta ''asset'' of
         None \<Rightarrow> asset_field rt meta = []
       | Some v \<Rightarrow> asset_field rt meta = '' [Asset: '' @ str_of rt v @ '']'')
   \<and> (if meta ''flowStation'' = None \<and> meta ''flowstation'' = None
       then flowstation_field rt meta = []
       else flowstation_field rt meta
            = '' [Flowstation: ''
              @ format_opt (str_of rt) (py_or (truthy rt) (meta ''flowStation'') (meta ''flowstation''))
              @ '']'')
   \<and> (if meta ''date'' = None \<and> meta ''productionDate'' = None
       then date_field rt meta = []
       else date_field rt meta
            = '' [Date: ''
              @ format_opt (str_of rt) (py_or (truthy rt) (meta ''date'') (meta ''productionDate''))
              @ '']'')"
  by (simp add: meta_summary_def collection_field_def asset_field_def flowstation_field_def
        date_field_def split: option.splits)

theorem meta_summary_fields_witness:
  "meta_summary example_runtime (map_of [(''collection'', ''production''), (''flowstation'', ''Awoba'')])
     = ''[Collection: production] [Flowstation: Awoba]''
   \<and> asset_field example_runtime (map_of [(''collection'', ''production''), (''flowstation'', ''Awoba'')]) = []
   \<and> date_field example_runtime (map_of [(''collection'', ''production''), (''flowstation'', ''Awoba'')]) = []"
  using meta_summary_fields [of example_runtime "map_of [(''collection'', ''production''), (''flowstation'', ''Awoba'')]"]
  by (simp add: collection_field_def asset_field_def flowstation_field_def date_field_def
        example_runtime_def py_or_def format_opt_def)

subsection \<open>The answer synthesizer\<close>

text \<open>
  C3. For every prompt and every behaviour of the LLM backend, \<open>groq_llm_inference\<close>
  returns a string and raises nothing. When the backend returns a completion with at
  least one choice, the answer is the content of the first choice. When the backend
  raises, the answer is the warning marker, the words \<open>Error generating response:\<close> and
  the text of the exception. In both cases the backend was called once, with the prompt.
\<close>

theorem groq_llm_inference_never_raises:
  "(\<exists>answer. fst (groq_llm_inference groq prompt s) = Inr answer)
   \<and> (\<forall>completion w' content others.
         groq prompt (fst s) = (Inr completion, w') \<and> choices completion = content # others
         \<longrightarrow> groq_llm_inference groq prompt s = (Inr content, (w', snd s @ [CreateCall prompt])))
   \<and> (\<forall>e w'.
         groq prompt (fst s) = (Inl e, w')
         \<longrightarrow> groq_llm_inference groq prompt s
             = (Inr (warning_marker @ '' Error generating response: '' @ str_exn e),
                (w', snd s @ [CreateCall prompt])))"
  by (auto simp: groq_llm_inference_def invoke_def split: prod.splits sum.splits list.splits)

theorem groq_llm_inference_never_raises_witness:
  "groq_llm_inference (\<lambda>prompt w. (Inl (Exception ''rate limit reached''), w)) ''question'' ((), [])
     = (Inr (warning_marker @ '' Error generating response: rate limit reached''), ((), [CreateCall ''question'']))
   \<and> groq_llm_inference (\<lambda>prompt w. (Inr \<lparr>choices = [''42 barrels'']\<rparr>, w)) ''question'' ((), [])
     = (Inr ''42 barrels'', ((), [CreateCall ''question'']))"
  using groq_llm_inference_never_raises [of "\<lambda>prompt w. (Inl (Exception ''rate limit reached''), w)" "''question''" "((), [])"]
    groq_llm_inference_never_raises [of "\<lambda>prompt w. (Inr \<lparr>choices = [''42 barrels'']\<rparr>, w)" "''question''" "((), [])"]
  by simp blast

subsection \<open>Empty retrieval\<close>

lemma invoke_calls:
  "invoke f c s = (r, s') \<Longrightarrow> snd s' = snd s @ [c]"
  by (auto simp: invoke_def split: prod.splits)

lemma retrieve_loop_calls:
  "retrieve_loop coll emb n queries all_chunks all_metadatas s = (r, s') \<Longrightarrow>
   filter is_rerank_or_llm (snd s') = filter is_rerank_or_llm (snd s)"
proof (induction queries arbitrary: all_chunks all_metadatas s)
  case Nil
  then show ?case by simp
next
  case (Cons query queries)
  obtain r1 s1 where e: "invoke (emb query) (EncodeCall query) s = (r1, s1)"
    by (cases "invoke (emb query) (EncodeCall query) s")
  from invoke_calls [OF e] have l1: "filter is_rerank_or_llm (snd s1) = filter is_rerank_or_llm (snd s)"
    by simp
  show ?case
  proof (cases r1)
    case (Inl ex)
    with Cons.prems e l1 show ?thesis by simp
  next
    case (Inr query_embedding)
    obtain r2 s2 where q: "invoke (coll query_embedding n) (QueryCall query_embedding n) s1 = (r2, s2)"
      by (cases "invoke (coll query_embedding n) (QueryCall query_embedding n) s1")
    from invoke_calls [OF q] l1 have l2: "filter is_rerank_or_llm (snd s2) = filter is_rerank_or_llm (snd s)"
      by simp
    show ?thesis
    proof (cases r2)
      case (Inl ex)
      with Cons.prems e q Inr l2 show ?thesis by simp
    next
      case results: (Inr results)
      show ?thesis
      proof (cases "extend_results results all_chunks all_metadatas")
        case (Inl ex)
        with Cons.prems e q Inr results l2 show ?thesis by simp
      next
        case ext: (Inr acc)
        obtain ac am where acc: "acc = (ac, am)" by (cases acc)
        from Cons.prems e q Inr results ext acc
        have "retrieve_loop coll emb n queries ac am s2 = (r, s')" by simp
        from Cons.IH [OF this] l2 show ?thesis by simp
      qed
    qed
  qed
qed

text \<open>
  C2. When the retrieval loop of a question ends with no chunk at all (every consumed
  query came back without candidates), \<open>query_chatbot\<close> returns the fixed
  no-relevant-information message in the state the loop left, and the log holds no call
  to the reranker and no call to the LLM that was not there before.
\<close>

theorem query_chatbot_no_candidates:
  assumes "retrieve rt coll emb user_question s = (Inr ([], all_metadatas), s1)"
  shows "query_chatbot rt coll emb rr groq user_question debug s = (Inr no_relevant_information, s1)
    \<and> filter is_rerank_or_llm (snd s1) = filter is_rerank_or_llm (snd s)"
proof -
  from assms have "filter is_rerank_or_llm (snd s1) = filter is_rerank_or_llm (snd s)"
    unfolding retrieve_def Let_def by (rule retrieve_loop_calls)
  with assms show ?thesis
    by (simp add: query_chatbot_def)
qed

lemma expand_awoba_flowstation:
  "expand_query_list ''Awoba flowstation oil'' = [''Awoba flowstation oil'', ''Awoba flowStation oil'']"
  by code_simp

lemma retrieve_empty_index:
  "retrieve example_runtime empty_index text_embedding ''Awoba flowstation oil'' ((), [])
     = (Inr ([], []),
        ((), [EncodeCall ''Awoba flowstation oil'', QueryCall ''Awoba flowstation oil'' 15,
              EncodeCall ''Awoba flowStation oil'', QueryCall ''Awoba flowStation oil'' 15]))"
  by (simp add: retrieve_def expand_query_def expand_awoba_flowstation example_runtime_def
        text_embedding_def empty_index_def invoke_def extend_results_def TOP_K_def
        numeral_2_eq_2 [symmetric])

theorem query_chatbot_no_candidates_witness:
  "query_chatbot example_runtime empty_index text_embedding
       (\<lambda>pairs w. (Inr ([] :: real list), w)) (\<lambda>prompt w. (Inr \<lparr>choices = []\<rparr>, w))
       ''Awoba flowstation oil'' False ((), [])
     = (Inr no_relevant_information,
        ((), [EncodeCall ''Awoba flowstation oil'', QueryCall ''Awoba flowstation oil'' 15,
              EncodeCall ''Awoba flowStation oil'', QueryCall ''Awoba flowStation oil'' 15]))"
  using query_chatbot_no_candidates [OF retrieve_empty_index] by simp

subsection \<open>The top-level entry point\<close>

lemma groq_llm_inference_Inr:
  "\<exists>answer s'. groq_llm_inference groq prompt s = (Inr answer, s')"
  by (auto simp: groq_llm_inference_def split: prod.splits sum.splits list.splits)

lemma query_chatbot_cases:
  "(\<exists>e s'. query_chatbot rt coll emb rr groq q debug s = (Inl e, s'))
   \<or> (\<exists>s'. query_chatbot rt coll emb rr groq q debug s = (Inr no_relevant_information, s'))
   \<or> (\<exists>prompt s2. query_chatbot rt coll emb rr groq q debug s = groq_llm_inference groq prompt s2)"
proof -
  obtain r s1 where ret: "retrieve rt coll emb q s = (r, s1)"
    by (cases "retrieve rt coll emb q s")
  show ?thesis
  proof (cases r)
    case (Inl e)
    with ret show ?thesis by (simp add: query_chatbot_def)
  next
    case (Inr acc)
    obtain all_chunks all_metadatas where acc: "acc = (all_chunks, all_metadatas)" by (cases acc)
    show ?thesis
    proof (cases "all_chunks = []")
      case True
      with ret Inr acc show ?thesis by (simp add: query_chatbot_def)
    next
      case False
      obtain ucs ums where dd: "remove_duplicates all_chunks all_metadatas = (ucs, ums)"
        by (cases "remove_duplicates all_chunks all_metadatas")
      let ?pairs = "map (\<lambda>doc. (q, doc)) ucs"
      obtain r2 s2 where inv: "invoke (rr ?pairs) (PredictCall ?pairs) s1 = (r2, s2)"
        by (cases "invoke (rr ?pairs) (PredictCall ?pairs) s1")
      show ?thesis
      proof (cases r2)
        case (Inl e)
        with ret Inr acc False dd inv show ?thesis by (simp add: query_chatbot_def)
      next
        case scores: (Inr scores)
        show ?thesis
        proof (cases "debug \<and> rerank ucs ums scores = []")
          case True
          with ret Inr acc False dd inv scores show ?thesis
            by (simp add: query_chatbot_def Let_def)
        next
          case nodebug: False
          obtain lcs tc where lim:
            "limit_context (enc_len rt) (map fst (rerank ucs ums scores)) MAX_TOKENS = (lcs, tc)"
            by (cases "limit_context (enc_len rt) (map fst (rerank ucs ums scores)) MAX_TOKENS")
          from ret Inr acc False dd inv scores nodebug lim
          have "query_chatbot rt coll emb rr groq q debug s
              = groq_llm_inference groq
                  (compose_prompt
                    (join context_separator
                      (context_parts rt lcs (map (\<lambda>x. fst (snd x)) (rerank ucs ums scores)))) q) s2"
            by (auto simp: query_chatbot_def Let_def)
          then show ?thesis by blast
        qed
      qed
    qed
  qed
qed

text \<open>
  C4. For every question and every behaviour of the collaborators, \<open>process_query\<close>, the
  caller of \<open>query_chatbot\<close> in the application, returns a string and raises nothing. The
  string is the no-relevant-information message, or what \<open>groq_llm_inference\<close> returned
  (the completion or its error string), or, when \<open>query_chatbot\<close> raised, the warning
  marker, the words \<open>Error processing query:\<close> and the text of the exception.
  (\<open>query_chatbot\<close> itself lets the exceptions of the index, the embedding model and
  the reranker through, as the example after the theorem shows.)
\<close>

theorem process_query_never_raises:
  "\<exists>answer s'. process_query rt user_input comps s = (Inr answer, s')
     \<and> (answer = no_relevant_information
        \<or> (\<exists>prompt s2. groq_llm_inference (groq_client comps) prompt s2 = (Inr answer, s'))
        \<or> (\<exists>e. query_chatbot rt (collection comps) (embedding_model comps) (reranker comps)
                   (groq_client comps) user_input False s = (Inl e, s')
               \<and> answer = warning_marker @ '' Error processing query: '' @ str_exn e))"
proof -
  let ?qc = "query_chatbot rt (collection comps) (embedding_model comps) (reranker comps)
               (groq_client comps) user_input False s"
  from query_chatbot_cases [of rt "collection comps" "embedding_model comps" "reranker comps"
      "groq_client comps" user_input False s]
  consider (raised) e s' where "?qc = (Inl e, s')"
    | (nothing) s' where "?qc = (Inr no_relevant_information, s')"
    | (llm) prompt s2 where "?qc = groq_llm_inference (groq_client comps) prompt s2"
    by blast
  then show ?thesis
  proof cases
    case raised
    then show ?thesis by (simp add: process_query_def)
  next
    case nothing
    then show ?thesis by (simp add: process_query_def)
  next
    case llm
    from groq_llm_inference_Inr [of "groq_client comps" prompt s2] obtain answer s'
      where a: "groq_llm_inference (groq_client comps) prompt s2 = (Inr answer, s')" by blast
    with llm have "process_query rt user_input comps s = (Inr answer, s')"
      by (simp add: process_query_def)
    with a show ?thesis by blast
  qed
qed

lemma retrieve_failing_embedding:
  "retrieve example_runtime empty_index failing_embedding ''Awoba flowstation oil'' ((), [])
     = (Inl (Exception ''model not loaded''), ((), [EncodeCall ''Awoba flowstation oil'']))"
  by (simp add: retrieve_def expand_query_def expand_awoba_flowstation example_runtime_def
        failing_embedding_def invoke_def)

theorem process_query_never_raises_witness:
  "query_chatbot example_runtime empty_index failing_embedding silent_reranker fixed_llm
       ''Awoba flowstation oil'' False ((), [])
     = (Inl (Exception ''model not loaded''), ((), [EncodeCall ''Awoba flowstation oil'']))
   \<and> process_query example_runtime ''Awoba flowstation oil''
       \<lparr>collection = empty_index, embedding_model = failing_embedding,
        reranker = silent_reranker, groq_client = fixed_llm\<rparr> ((), [])
     = (Inr (warning_marker @ '' Error processing query: model not loaded''),
        ((), [EncodeCall ''Awoba flowstation oil'']))"
  using process_query_never_raises [of example_runtime "''Awoba flowstation oil''"
      "\<lparr>collection = empty_index, embedding_model = failing_embedding,
        reranker = silent_reranker, groq_client = fixed_llm\<rparr>" "((), [])"]
  by (simp add: process_query_def query_chatbot_def retrieve_failing_embedding)

subsection \<open>A top-ranked chunk over the budget\<close>



lemma long_chunk_nonempty: "long_chunk \<noteq> []"
  by (simp add: long_chunk_def)



subsection \<open>Query expansion: dates\<close>










subsection \<open>Query expansion: the site-type keyword\<close>

lemma replace_absent:
  "\<not> contains old s \<Longrightarrow> replace old new s = s"
proof (induction s)
  case Nil
  then show ?case by simp
next
  case (Cons c cs)
  from Cons.prems have "old \<noteq> []" "\<not> prefix old (c # cs)" "\<not> contains old cs"
    by auto
  with Cons.IH show ?case
    by (subst replace.simps) (simp del: replace.simps)
qed

lemma flowstation_variant_unchanged:
  assumes "keyword \<in> set flowstation_keywords"
    and "contains keyword (lower query)"
    and "\<not> contains keyword query"
  shows "replace keyword ''flowStation'' query = query"
  using assms(3) by (rule replace_absent)

text \<open>
  C6. The keyword test reads the lower-cased question, the replacement reads the question
  as typed. For \<open>Oil at Awoba Flowstation\<close> the keyword \<open>flowstation\<close> is found,
  nothing is replaced, and the variant appended is the question itself: the result holds
  the question only, and not the variant with the canonical spelling \<open>flowStation\<close>.
  (\<open>flowstation_variant_unchanged\<close> says so for every question in which the keyword
  occurs in another casing only; with the keyword in lower case the variant is there,
  \<open>expand_query_lowercase_flowstation\<close>.)
\<close>

theorem expand_query_capitalised_flowstation:
  "contains ''flowstation'' (lower ''Oil at Awoba Flowstation'')
   \<and> replace ''flowstation'' ''flowStation'' ''Oil at Awoba Flowstation''
       = ''Oil at Awoba Flowstation''
   \<and> expand_query_list ''Oil at Awoba Flowstation''
       = [''Oil at Awoba Flowstation'', ''Oil at Awoba Flowstation'']
   \<and> expand_query (list_of_set example_runtime) ''Oil at Awoba Flowstation''
       = [''Oil at Awoba Flowstation'']
   \<and> ''Oil at Awoba flowStation''
       \<notin> set (expand_query (list_of_set example_runtime) ''Oil at Awoba Flowstation'')"
proof -
  have a: "contains ''flowstation'' (lower ''Oil at Awoba Flowstation'')"
    by code_simp
  have b: "replace ''flowstation'' ''flowStation'' ''Oil at Awoba Flowstation''
      = ''Oil at Awoba Flowstation''"
    by code_simp
  have c: "expand_query_list ''Oil at Awoba Flowstation''
      = [''Oil at Awoba Flowstation'', ''Oil at Awoba Flowstation'']"
    by code_simp
  from a b c show ?thesis
    by (simp add: expand_query_def example_runtime_def)
qed

lemma expand_query_lowercase_flowstation:
  "expand_query (list_of_set example_runtime) ''Oil at Awoba flowstation''
     = [''Oil at Awoba flowstation'', ''Oil at Awoba flowStation'']"
proof -
  have "expand_query_list ''Oil at Awoba flowstation''
      = [''Oil at Awoba flowstation'', ''Oil at Awoba flowStation'']"
    by code_simp
  then show ?thesis
    by (simp add: expand_query_def example_runtime_def)
qed

end
